theory Spec2Isabelle
  imports Complex_Main
begin

section \<open>Constants of \<^verbatim>\<open>utils.py\<close>\<close>

definition IMAGE_DIM :: nat where
  "IMAGE_DIM = 32"

definition IMAGE_LEN :: nat where
  "IMAGE_LEN = IMAGE_DIM * IMAGE_DIM"

definition NUM_COLORS :: nat where
  "NUM_COLORS = 512"

text \<open>
  \<^verbatim>\<open>PIXEL_TOKENS = [f"[{i:0>3}]" for i in range(NUM_COLORS)]\<close>: the decimal digits of
  \<open>i\<close>, right-aligned in a field of width three filled with \<open>0\<close>, in brackets.
\<close>

definition digit_char :: "nat \<Rightarrow> char" where
  "digit_char d = char_of (48 + d)"

fun str_nat :: "nat \<Rightarrow> string" where
  "str_nat n = (if n < 10 then [digit_char n] else str_nat (n div 10) @ [digit_char (n mod 10)])"

definition rjust_zero :: "nat \<Rightarrow> string \<Rightarrow> string" where
  "rjust_zero w s = replicate (w - length s) (CHR ''0'') @ s"

definition pixel_token :: "nat \<Rightarrow> string" where
  "pixel_token i = ''['' @ rjust_zero 3 (str_nat i) @ '']''"

definition PIXEL_TOKENS :: "string list" where
  "PIXEL_TOKENS = map pixel_token [0..<NUM_COLORS]"

definition IMAGE_TOKEN :: string where
  "IMAGE_TOKEN = ''[Image]''"

definition IMAGE_FIRST_TOKEN :: string where
  "IMAGE_FIRST_TOKEN = ''[ImageFirst]''"

definition TEXT_TOKEN :: string where
  "TEXT_TOKEN = ''[Text]''"

definition TEXT_FIRST_TOKEN :: string where
  "TEXT_FIRST_TOKEN = ''[TextFirst]''"

section \<open>Data model\<close>

text \<open>
  The exceptions the collater can end with: the failed \<^verbatim>\<open>assert\<close> on \<open>p\<close>, the
  \<^verbatim>\<open>ValueError\<close> of \<^verbatim>\<open>rng.choice\<close> on an empty sequence, and whatever the tokenizer raises,
  which the collater does not catch.
\<close>

datatype error = AssertionError | ValueError | TokenizerError

text \<open>
  One element of \<^verbatim>\<open>features\<close>: a dictionary with the keys \<^verbatim>\<open>palette_images\<close> and \<^verbatim>\<open>captions\<close>;
  the latter is a \<^verbatim>\<open>str\<close> or a sequence of them (\<^verbatim>\<open>type(captions) is str\<close> tells them apart).
\<close>

datatype caption_field = Str string | StrList "string list"

record example =
  palette_images :: string
  captions :: caption_field

text \<open>
  A two-dimensional tensor: its shape and its entries. Entries are read only inside the
  shape; the rows of a tensor all have \<open>ncols\<close> entries, as those of a torch tensor do.
\<close>

record 'a tensor2 =
  nrows :: nat
  ncols :: nat
  entry :: "nat \<Rightarrow> nat \<Rightarrow> 'a"

definition shape :: "'a tensor2 \<Rightarrow> nat \<times> nat" where
  "shape t = (nrows t, ncols t)"

definition row :: "'a tensor2 \<Rightarrow> nat \<Rightarrow> 'a list" where
  "row t i = map (entry t i) [0..<ncols t]"

text \<open>\<^verbatim>\<open>torch.zeros(size=..., dtype=bool)\<close>\<close>

definition zeros :: "nat \<times> nat \<Rightarrow> bool tensor2" where
  "zeros sh = \<lparr>nrows = fst sh, ncols = snd sh, entry = (\<lambda>i j. False)\<rparr>"

text \<open>What \<^verbatim>\<open>tokenizer(prompts, return_tensors="pt", padding=True)\<close> returns.\<close>

record encoding =
  enc_input_ids :: "int tensor2"
  enc_attention_mask :: "int tensor2"

text \<open>The dictionary \<^verbatim>\<open>batch\<close> the collater returns.\<close>

record batch =
  input_ids :: "int tensor2"
  attention_mask :: "int tensor2"
  image_masks :: "bool tensor2"
  kinds :: "int list"

section \<open>The collaborators: tokenizer and random source\<close>

text \<open>
  The tokenizer is an object of the tokenizer library; \<open>'tk\<close> is its state (the
  vocabulary among it). Its methods are parameters of the model: \<^verbatim>\<open>add_tokens\<close> mutates the
  object, \<^verbatim>\<open>tokenize\<close> and the batch call read it and may raise.
\<close>

record 'tk tokenizer_api =
  add_tokens :: "'tk \<Rightarrow> string list \<Rightarrow> 'tk"
  get_vocab :: "'tk \<Rightarrow> string \<Rightarrow> nat option"
  tokenize :: "'tk \<Rightarrow> string \<Rightarrow> error + string list"
  encode_batch :: "'tk \<Rightarrow> string list \<Rightarrow> error + encoding"

text \<open>
  The random source \<^verbatim>\<open>rng\<close> is a generator with a state \<open>'r\<close>; each draw returns a value
  and the next state. Python floats are modelled by the real numbers they denote.
\<close>

record 'r random_source =
  rng_random :: "'r \<Rightarrow> real \<times> 'r"
  rng_choice :: "'r \<Rightarrow> string list \<Rightarrow> string \<times> 'r"

text \<open>
  The effects of a call of the collater: the state of the generator, and the calls made
  to the two collaborators, in order.
\<close>

datatype event = Random | Choice "string list" | Tokenize string | EncodeBatch "string list"

record 'r world =
  rng_state :: 'r
  calls :: "event list"

definition random_call :: "'r random_source \<Rightarrow> 'r world \<Rightarrow> real \<times> 'r world" where
  "random_call rs w =
     (fst (rng_random rs (rng_state w)),
      \<lparr>rng_state = snd (rng_random rs (rng_state w)), calls = calls w @ [Random]\<rparr>)"

text \<open>\<^verbatim>\<open>rng.choice(a)\<close> raises \<^verbatim>\<open>ValueError\<close> when \<open>a\<close> is empty, before it draws.\<close>

definition choice_call :: "'r random_source \<Rightarrow> string list \<Rightarrow> 'r world \<Rightarrow> (error + string) \<times> 'r world" where
  "choice_call rs xs w =
     (if xs = [] then (Inl ValueError, w\<lparr>calls := calls w @ [Choice xs]\<rparr>)
      else (Inr (fst (rng_choice rs (rng_state w) xs)),
            \<lparr>rng_state = snd (rng_choice rs (rng_state w) xs), calls = calls w @ [Choice xs]\<rparr>))"

definition tokenize_call :: "'tk tokenizer_api \<Rightarrow> 'tk \<Rightarrow> string \<Rightarrow> 'r world \<Rightarrow> (error + string list) \<times> 'r world" where
  "tokenize_call api tk s w = (tokenize api tk s, w\<lparr>calls := calls w @ [Tokenize s]\<rparr>)"

definition encode_call :: "'tk tokenizer_api \<Rightarrow> 'tk \<Rightarrow> string list \<Rightarrow> 'r world \<Rightarrow> (error + encoding) \<times> 'r world" where
  "encode_call api tk ps w = (encode_batch api tk ps, w\<lparr>calls := calls w @ [EncodeBatch ps]\<rparr>)"

section \<open>Float arithmetic\<close>

text \<open>
  A Python \<^verbatim>\<open>float\<close> is an IEEE 754 binary64 number; a finite one is modelled by the real
  number it denotes. An arithmetic operation returns the exact result rounded to the
  nearest float, a tie going to the even significand. \<open>round_double\<close> is that rounding:
  the result is a multiple of the unit in the last place of its binade, 52 binary places
  below the exponent (the exponent is held at -1022 for the subnormal numbers). A result
  beyond the largest float would be an infinity; \<^verbatim>\<open>1.0 - p\<close> with \<open>p\<close> between 0 and 1 is
  not.
\<close>

definition round_half_even :: "real \<Rightarrow> int" where
  "round_half_even q =
     (let f = \<lfloor>q\<rfloor>
      in if q - of_int f < 1/2 then f
         else if q - of_int f > 1/2 then f + 1
         else if even f then f else f + 1)"

definition float_exponent :: "real \<Rightarrow> int" where
  "float_exponent x = max (- 1022) \<lfloor>log 2 \<bar>x\<bar>\<rfloor>"

definition round_double :: "real \<Rightarrow> real" where
  "round_double x =
     (if x = 0 then 0
      else of_int (round_half_even (x / 2 powi (float_exponent x - 52))) * 2 powi (float_exponent x - 52))"

text \<open>The float subtraction \<^verbatim>\<open>a - b\<close>.\<close>

definition float_sub :: "real \<Rightarrow> real \<Rightarrow> real" where
  "float_sub a b = round_double (a - b)"

section \<open>The collater\<close>

text \<open>\<^verbatim>\<open>caption = captions if type(captions) is str else rng.choice(captions)\<close>\<close>

fun resolve_caption :: "'r random_source \<Rightarrow> caption_field \<Rightarrow> 'r world \<Rightarrow> (error + string) \<times> 'r world" where
  "resolve_caption rs (Str s) w = (Inr s, w)"
| "resolve_caption rs (StrList xs) w = choice_call rs xs w"

text \<open>The prompt of one example, from the toss, the caption and the image.\<close>

definition make_prompt :: "bool \<Rightarrow> string \<Rightarrow> string \<Rightarrow> string" where
  "make_prompt coin_toss caption img =
     (if coin_toss then TEXT_FIRST_TOKEN @ caption @ IMAGE_TOKEN @ img
      else IMAGE_FIRST_TOKEN @ img @ TEXT_TOKEN @ caption)"

text \<open>What one iteration of the loop appends to its three lists.\<close>

record step =
  kind :: int
  image_start_position :: nat
  prompt :: string

text \<open>
  The body of the loop over the examples. \<^verbatim>\<open>tokenizer.tokenize(caption)\<close> is evaluated only
  in the branch of the conditional expression that the toss selects. The toss compares
  the draw with the float difference \<^verbatim>\<open>1.0 - p\<close>.
\<close>

definition compose_example ::
  "'tk tokenizer_api \<Rightarrow> 'tk \<Rightarrow> 'r random_source \<Rightarrow> real \<Rightarrow> example \<Rightarrow> 'r world \<Rightarrow> (error + step) \<times> 'r world" where
  "compose_example api tk rs p ex w =
     (let u = fst (random_call rs w);
          w1 = snd (random_call rs w);
          coin_toss = (u > float_sub 1 p)
      in case resolve_caption rs (captions ex) w1 of
           (Inl e, w2) \<Rightarrow> (Inl e, w2)
         | (Inr caption, w2) \<Rightarrow>
             (let prompt = make_prompt coin_toss caption (palette_images ex)
              in if coin_toss then
                   (case tokenize_call api tk caption w2 of
                      (Inl e, w3) \<Rightarrow> (Inl e, w3)
                    | (Inr toks, w3) \<Rightarrow>
                        (Inr \<lparr>kind = 1, image_start_position = 3 + length toks, prompt = prompt\<rparr>, w3))
                 else (Inr \<lparr>kind = 0, image_start_position = 2, prompt = prompt\<rparr>, w2)))"

text \<open>The three lists the loop fills.\<close>

record loop_lists =
  kinds_list :: "int list"
  image_start_positions :: "nat list"
  prompts :: "string list"

definition empty_lists :: loop_lists where
  "empty_lists = \<lparr>kinds_list = [], image_start_positions = [], prompts = []\<rparr>"

definition append_step :: "loop_lists \<Rightarrow> step \<Rightarrow> loop_lists" where
  "append_step acc st =
     \<lparr>kinds_list = kinds_list acc @ [kind st],
      image_start_positions = image_start_positions acc @ [image_start_position st],
      prompts = prompts acc @ [prompt st]\<rparr>"

fun collate_loop ::
  "'tk tokenizer_api \<Rightarrow> 'tk \<Rightarrow> 'r random_source \<Rightarrow> real \<Rightarrow> example list \<Rightarrow> loop_lists \<Rightarrow> 'r world
     \<Rightarrow> (error + loop_lists) \<times> 'r world" where
  "collate_loop api tk rs p [] acc w = (Inr acc, w)"
| "collate_loop api tk rs p (ex # exs) acc w =
     (case compose_example api tk rs p ex w of
        (Inl e, w') \<Rightarrow> (Inl e, w')
      | (Inr st, w') \<Rightarrow> collate_loop api tk rs p exs (append_step acc st) w')"

text \<open>
  \<^verbatim>\<open>image_mask[a : b] = True\<close> on row \<open>i\<close>, for \<open>0 \<le> a \<le> b\<close>: a slice is clipped to the row,
  so the entries written are those from \<open>min a ncols\<close> up to \<open>min b ncols\<close>.
\<close>

definition set_slice :: "bool tensor2 \<Rightarrow> nat \<Rightarrow> nat \<Rightarrow> nat \<Rightarrow> bool tensor2" where
  "set_slice m i a b =
     m\<lparr>entry := (\<lambda>i' j. if i' = i \<and> min a (ncols m) \<le> j \<and> j < min b (ncols m) then True
                          else entry m i' j)\<rparr>"

text \<open>
  \<^verbatim>\<open>for image_mask, image_start_position in zip(image_masks, image_start_positions)\<close>: the
  rows of the tensor from row \<open>i\<close> on, paired with the positions; \<^verbatim>\<open>zip\<close> ends with the
  shorter of the two.
\<close>

fun fill_masks :: "bool tensor2 \<Rightarrow> nat \<Rightarrow> nat list \<Rightarrow> bool tensor2" where
  "fill_masks m i [] = m"
| "fill_masks m i (s # ss) =
     (if i < nrows m then fill_masks (set_slice m i s (s + IMAGE_LEN)) (Suc i) ss else m)"

text \<open>
  \<^verbatim>\<open>get_custom_collater(tokenizer, rng, p)\<close> applied to \<^verbatim>\<open>features\<close>: the closure \<^verbatim>\<open>_collater\<close>.
\<close>

definition get_custom_collater ::
  "'tk tokenizer_api \<Rightarrow> 'tk \<Rightarrow> 'r random_source \<Rightarrow> real \<Rightarrow> example list \<Rightarrow> 'r world
     \<Rightarrow> (error + batch) \<times> 'r world" where
  "get_custom_collater api tk rs p features w =
     (if \<not> (0 \<le> p \<and> p \<le> 1) then (Inl AssertionError, w)
      else case collate_loop api tk rs p features empty_lists w of
             (Inl e, w') \<Rightarrow> (Inl e, w')
           | (Inr acc, w') \<Rightarrow>
               (case encode_call api tk (prompts acc) w' of
                  (Inl e, w'') \<Rightarrow> (Inl e, w'')
                | (Inr enc, w'') \<Rightarrow>
                    (Inr \<lparr>input_ids = enc_input_ids enc,
                          attention_mask = enc_attention_mask enc,
                          image_masks = fill_masks (zeros (shape (enc_attention_mask enc))) 0
                                          (image_start_positions acc),
                          kinds = kinds_list acc\<rparr>, w'')))"

section \<open>Preparing the tokenizer\<close>

definition prepare_tokenizer :: "'tk tokenizer_api \<Rightarrow> 'tk \<Rightarrow> 'tk" where
  "prepare_tokenizer api tokenizer =
     (let t1 = add_tokens api tokenizer PIXEL_TOKENS;
          t2 = add_tokens api t1 [IMAGE_FIRST_TOKEN, TEXT_FIRST_TOKEN, IMAGE_TOKEN, TEXT_TOKEN]
      in t2)"

section \<open>Observers used in the statements\<close>

text \<open>
  The state of the generator and the call log when the loop reaches example \<open>i\<close> of
  \<open>features\<close>, having started in \<open>w\<close>: the state each earlier iteration left.
\<close>

fun world_before ::
  "'tk tokenizer_api \<Rightarrow> 'tk \<Rightarrow> 'r random_source \<Rightarrow> real \<Rightarrow> example list \<Rightarrow> 'r world \<Rightarrow> nat \<Rightarrow> 'r world" where
  "world_before api tk rs p exs w 0 = w"
| "world_before api tk rs p [] w (Suc i) = w"
| "world_before api tk rs p (ex # exs) w (Suc i) =
     world_before api tk rs p exs (snd (compose_example api tk rs p ex w)) i"

text \<open>The number of \<open>True\<close> entries of row \<open>i\<close> of a mask.\<close>

definition true_count :: "bool tensor2 \<Rightarrow> nat \<Rightarrow> nat" where
  "true_count m i = length (filter (\<lambda>b. b) (row m i))"

text \<open>
  The real token count of row \<open>i\<close>: the number of entries of the attention mask that
  are 1 (1 marks a real token, 0 padding).
\<close>

definition real_token_count :: "int tensor2 \<Rightarrow> nat \<Rightarrow> nat" where
  "real_token_count t i = length (filter (\<lambda>a. a = 1) (row t i))"

section \<open>A small tokenizer and random source, to run the functions on\<close>

text \<open>
  Modelled from the spec: \<^verbatim>\<open>add_tokens\<close> is a method of the tokenizer library, whose code is
  not part of \<^verbatim>\<open>utils.py\<close>. The spec has it register each token as a new vocabulary entry
  with a unique, previously unused id, and do nothing for a token that is already
  present. The vocabulary is the list of the tokens in the order of their ids.
\<close>

definition vocab_add_tokens :: "string list \<Rightarrow> string list \<Rightarrow> string list" where
  "vocab_add_tokens v xs = fold (\<lambda>x v'. if x \<in> set v' then v' else v' @ [x]) xs v"

fun vocab_lookup :: "string list \<Rightarrow> string \<Rightarrow> nat option" where
  "vocab_lookup [] s = None"
| "vocab_lookup (x # v) s = (if x = s then Some 0 else map_option Suc (vocab_lookup v s))"

text \<open>
  A tokenizer that splits a string into its characters and pads every row of a batch to
  the width \<open>W\<close> with real tokens (id 0, attention 1).
\<close>

definition grid_tokenizer :: "nat \<Rightarrow> string list tokenizer_api" where
  "grid_tokenizer W =
     \<lparr>add_tokens = vocab_add_tokens,
      get_vocab = vocab_lookup,
      tokenize = (\<lambda>v s. Inr (map (\<lambda>c. [c]) s)),
      encode_batch = (\<lambda>v ps. Inr
        \<lparr>enc_input_ids = \<lparr>nrows = length ps, ncols = W, entry = (\<lambda>i j. 0)\<rparr>,
         enc_attention_mask = \<lparr>nrows = length ps, ncols = W, entry = (\<lambda>i j. 1)\<rparr>\<rparr>)\<rparr>"

text \<open>
  A generator whose state is a counter \<open>n\<close>: it draws \<open>(n mod 4) / 4\<close> and chooses the
  element of index \<open>n mod length xs\<close>.
\<close>

definition cyclic_rng :: "nat random_source" where
  "cyclic_rng =
     \<lparr>rng_random = (\<lambda>n. (real (n mod 4) / 4, Suc n)),
      rng_choice = (\<lambda>n xs. (xs ! (n mod length xs), Suc n))\<rparr>"

definition sample_features :: "example list" where
  "sample_features =
     [\<lparr>palette_images = ''[012][045]'', captions = Str ''cat''\<rparr>,
      \<lparr>palette_images = ''[003][099]'', captions = StrList [''a cat'', ''a feline'']\<rparr>]"

definition sample_world :: "nat world" where
  "sample_world = \<lparr>rng_state = 2, calls = []\<rparr>"

definition sample_prompts :: "string list" where
  "sample_prompts = [''[ImageFirst][012][045][Text]cat'', ''[TextFirst]a cat[Image][003][099]'']"

definition sample_lists :: loop_lists where
  "sample_lists = \<lparr>kinds_list = [0, 1], image_start_positions = [2, 8], prompts = sample_prompts\<rparr>"

definition sample_world_after_loop :: "nat world" where
  "sample_world_after_loop =
     \<lparr>rng_state = 5, calls = [Random, Random, Choice [''a cat'', ''a feline''], Tokenize ''a cat'']\<rparr>"

definition sample_batch :: "nat \<Rightarrow> batch" where
  "sample_batch W =
     \<lparr>input_ids = \<lparr>nrows = 2, ncols = W, entry = (\<lambda>i j. 0)\<rparr>,
      attention_mask = \<lparr>nrows = 2, ncols = W, entry = (\<lambda>i j. 1)\<rparr>,
      image_masks = fill_masks (zeros (2, W)) 0 [2, 8],
      kinds = [0, 1]\<rparr>"

definition sample_world_after :: "nat world" where
  "sample_world_after =
     \<lparr>rng_state = 5,
      calls = [Random, Random, Choice [''a cat'', ''a feline''], Tokenize ''a cat'',
               EncodeBatch sample_prompts]\<rparr>"

definition sample_prompts_image_first :: "string list" where
  "sample_prompts_image_first =
     [''[ImageFirst][012][045][Text]cat'', ''[ImageFirst][003][099][Text]a cat'']"

definition sample_batch_image_first :: "nat \<Rightarrow> batch" where
  "sample_batch_image_first W =
     \<lparr>input_ids = \<lparr>nrows = 2, ncols = W, entry = (\<lambda>i j. 0)\<rparr>,
      attention_mask = \<lparr>nrows = 2, ncols = W, entry = (\<lambda>i j. 1)\<rparr>,
      image_masks = fill_masks (zeros (2, W)) 0 [2, 2],
      kinds = [0, 0]\<rparr>"

definition sample_world_after_image_first :: "nat world" where
  "sample_world_after_image_first =
     \<lparr>rng_state = 5,
      calls = [Random, Random, Choice [''a cat'', ''a feline''],
               EncodeBatch sample_prompts_image_first]\<rparr>"

text \<open>
  The floats \<^verbatim>\<open>0.1\<close> and \<^verbatim>\<open>0.9\<close>, and a generator that draws the same value every time.
\<close>

definition one_tenth :: real where
  "one_tenth = 3602879701896397 / 2 ^ 55"

definition nine_tenths :: real where
  "nine_tenths = 8106479329266893 / 2 ^ 53"

definition constant_rng :: "real \<Rightarrow> nat random_source" where
  "constant_rng u =
     \<lparr>rng_random = (\<lambda>n. (u, Suc n)),
      rng_choice = (\<lambda>n xs. (xs ! (n mod length xs), Suc n))\<rparr>"

section \<open>Lemmas about the float subtraction\<close>

lemma log2_powi: "log 2 (2 powi e) = of_int e"
proof -
  have "(2::real) powr of_int e = 2 powi e"
    by (rule powr_real_of_int') simp_all
  then have "log 2 (2 powi e) = log 2 (2 powr of_int e)" by simp
  also have "\<dots> = of_int e" by simp
  finally show ?thesis .
qed

lemma floor_log2_eq:
  assumes "0 < x" "2 powi e \<le> x" "x < 2 powi (e + 1)"
  shows "\<lfloor>log 2 x\<rfloor> = e"
proof (rule floor_unique)
  have two: "(1::real) < 2" by simp
  have p: "(0::real) < 2 powi e" and q: "(0::real) < 2 powi (e + 1)" by simp_all
  have "log 2 (2 powi e) \<le> log 2 x"
    by (rule iffD2 [OF log_le_cancel_iff [OF two p assms(1)] assms(2)])
  then show "of_int e \<le> log 2 x"
    by (simp only: log2_powi)
  have "log 2 x < log 2 (2 powi (e + 1))"
    by (rule iffD2 [OF log_less_cancel_iff [OF two assms(1) q] assms(3)])
  then show "log 2 x < of_int e + 1"
    by (simp only: log2_powi of_int_add of_int_1)
qed

lemma float_exponent_eq:
  assumes "x \<noteq> 0" "- 1022 \<le> e" "2 powi e \<le> \<bar>x\<bar>" "\<bar>x\<bar> < 2 powi (e + 1)"
  shows "float_exponent x = e"
  using floor_log2_eq [of "\<bar>x\<bar>" e] assms by (simp add: float_exponent_def)

lemma round_half_even_int: "round_half_even (of_int n) = n"
  by (simp add: round_half_even_def)

lemma round_double_one: "round_double 1 = 1"
proof -
  have e: "float_exponent 1 = 0"
    by (rule float_exponent_eq) simp_all
  have "(1::real) / 2 powi (- 52) = of_int (2 ^ 52)"
    by (simp add: power_int_minus field_simps)
  then have "round_half_even (1 / 2 powi (- 52)) = 2 ^ 52"
    by (simp only: round_half_even_int)
  then show ?thesis
    by (simp add: round_double_def e power_int_minus)
qed

lemma round_double_half: "round_double (1/2) = 1/2"
proof -
  have e: "float_exponent (1/2) = - 1"
    by (rule float_exponent_eq) (simp_all add: power_int_minus)
  have "(1/2::real) / 2 powi (- 53) = of_int (2 ^ 52)"
    by (simp add: power_int_minus field_simps)
  then have "round_half_even ((1/2) / 2 powi (- 53)) = 2 ^ 52"
    by (simp only: round_half_even_int)
  then show ?thesis
    by (simp add: round_double_def e power_int_minus)
qed

lemma float_sub_one_zero: "float_sub 1 0 = 1"
  by (simp add: float_sub_def round_double_one)

lemma float_sub_one_half: "float_sub 1 (1/2) = 1/2"
  using round_double_half by (simp add: float_sub_def)

lemma float_sub_one_tenth_value:
  "float_sub 1 (3602879701896397 / 2 ^ 55) = 8106479329266893 / 2 ^ 53"
proof -
  let ?x = "32425917317067571 / 2 ^ 55 :: real"
  have x: "1 - 3602879701896397 / 2 ^ 55 = ?x" by simp
  have e: "float_exponent ?x = - 1"
    by (rule float_exponent_eq) (simp_all add: power_int_minus)
  have q: "?x / 2 powi (- 53) = 32425917317067571 / 4"
    by (simp add: power_int_minus)
  have f: "\<lfloor>32425917317067571 / 4 :: real\<rfloor> = 8106479329266892"
    by (rule floor_unique) simp_all
  have r: "round_half_even (32425917317067571 / 4) = 8106479329266893"
    unfolding round_half_even_def Let_def f by simp
  show ?thesis
    unfolding float_sub_def x round_double_def e
    using q r by (simp add: power_int_minus)
qed

lemma float_sub_one_tenth: "float_sub 1 one_tenth = nine_tenths"
  unfolding one_tenth_def nine_tenths_def by (rule float_sub_one_tenth_value)

section \<open>Lemmas about the mask loop\<close>

lemma fill_masks_nrows: "nrows (fill_masks m i ss) = nrows m"
  by (induction ss arbitrary: m i) (auto simp: set_slice_def)

lemma fill_masks_ncols: "ncols (fill_masks m i ss) = ncols m"
  by (induction ss arbitrary: m i) (auto simp: set_slice_def)

lemma set_slice_entry:
  "entry (set_slice m i a b) r j =
     (if r = i \<and> min a (ncols m) \<le> j \<and> j < min b (ncols m) then True else entry m r j)"
  by (simp add: set_slice_def)

lemma set_slice_dims: "nrows (set_slice m i a b) = nrows m" "ncols (set_slice m i a b) = ncols m"
  by (simp_all add: set_slice_def)

lemma fill_masks_entry:
  "entry (fill_masks m i ss) r j =
     (if i \<le> r \<and> r < i + length ss \<and> r < nrows m
         \<and> min (ss ! (r - i)) (ncols m) \<le> j \<and> j < min (ss ! (r - i) + IMAGE_LEN) (ncols m)
      then True else entry m r j)"
proof (induction ss arbitrary: m i)
  case Nil
  then show ?case by auto
next
  case (Cons s ss)
  show ?case
  proof (cases "i < nrows m")
    case False
    then show ?thesis by auto
  next
    case inrange: True
    let ?m' = "set_slice m i s (s + IMAGE_LEN)"
    have step: "fill_masks m i (s # ss) = fill_masks ?m' (Suc i) ss"
      using inrange by simp
    have ih: "entry (fill_masks ?m' (Suc i) ss) r j =
       (if Suc i \<le> r \<and> r < Suc i + length ss \<and> r < nrows m
           \<and> min (ss ! (r - Suc i)) (ncols m) \<le> j \<and> j < min (ss ! (r - Suc i) + IMAGE_LEN) (ncols m)
        then True else entry ?m' r j)"
      using Cons.IH [of ?m' "Suc i"] by (simp only: set_slice_dims)
    show ?thesis
    proof (cases "r = i")
      case True
      then show ?thesis
        unfolding step ih set_slice_entry using inrange by simp
    next
      case False
      then have "(s # ss) ! (r - i) = ss ! (r - Suc i)" if "i \<le> r"
        using that by (simp add: nth_Cons' )
      with False show ?thesis
        unfolding step ih set_slice_entry by auto
    qed
  qed
qed

lemma count_span: "length (filter (\<lambda>j. a \<le> j \<and> j < b) [0..<L]) = min b L - min a L"
  by (induction L) auto

lemma count_span_min:
  "length (filter (\<lambda>j. min a L \<le> j \<and> j < min b L) [0..<L]) = min b L - min a L"
proof -
  have "filter (\<lambda>j. min a L \<le> j \<and> j < min b L) [0..<L] = filter (\<lambda>j. a \<le> j \<and> j < b) [0..<L]"
    by (rule filter_cong) auto
  then show ?thesis by (simp add: count_span)
qed

lemma zeros_dims: "nrows (zeros (R, L)) = R" "ncols (zeros (R, L)) = L" "entry (zeros (R, L)) r j = False"
  by (simp_all add: zeros_def)

lemma fill_zeros_entry:
  "entry (fill_masks (zeros (R, L)) 0 ss) r j =
     (r < length ss \<and> r < R \<and> min (ss ! r) L \<le> j \<and> j < min (ss ! r + IMAGE_LEN) L)"
  by (simp add: fill_masks_entry zeros_dims)

lemma fill_zeros_true_count:
  assumes "r < length ss" "r < R"
  shows "true_count (fill_masks (zeros (R, L)) 0 ss) r = min (ss ! r + IMAGE_LEN) L - min (ss ! r) L"
proof -
  have "true_count (fill_masks (zeros (R, L)) 0 ss) r
      = length (filter (\<lambda>j. min (ss ! r) L \<le> j \<and> j < min (ss ! r + IMAGE_LEN) L) [0..<L])"
    using assms
    by (simp add: true_count_def row_def filter_map comp_def fill_zeros_entry fill_masks_ncols zeros_dims)
  then show ?thesis by (simp only: count_span_min)
qed

lemma real_token_count_le: "real_token_count t i \<le> ncols t"
proof -
  have "length (filter (\<lambda>a. a = 1) (row t i)) \<le> length (row t i)"
    by (rule length_filter_le)
  then show ?thesis by (simp add: real_token_count_def row_def)
qed

section \<open>Lemmas about the loop over the examples\<close>

lemma compose_example_Inr:
  assumes "compose_example api tk rs p ex w = (Inr st, w')"
  shows "\<exists>caption w2.
           resolve_caption rs (captions ex) (snd (random_call rs w)) = (Inr caption, w2)
         \<and> prompt st = make_prompt (fst (random_call rs w) > float_sub 1 p) caption (palette_images ex)
         \<and> kind st = (if fst (random_call rs w) > float_sub 1 p then 1 else 0)
         \<and> (if fst (random_call rs w) > float_sub 1 p
             then \<exists>toks. tokenize api tk caption = Inr toks
                        \<and> image_start_position st = 3 + length toks
                        \<and> w' = w2\<lparr>calls := calls w2 @ [Tokenize caption]\<rparr>
             else image_start_position st = 2 \<and> w' = w2)"
  using assms
  by (auto simp: compose_example_def Let_def tokenize_call_def split: prod.splits sum.splits if_splits)

lemma append_step_simps:
  "kinds_list (append_step acc st) = kinds_list acc @ [kind st]"
  "image_start_positions (append_step acc st) = image_start_positions acc @ [image_start_position st]"
  "prompts (append_step acc st) = prompts acc @ [prompt st]"
  by (simp_all add: append_step_def)

lemma collate_loop_lengths:
  "collate_loop api tk rs p exs acc w = (Inr acc', w') \<Longrightarrow>
     length (kinds_list acc') = length (kinds_list acc) + length exs
   \<and> length (image_start_positions acc') = length (image_start_positions acc) + length exs
   \<and> length (prompts acc') = length (prompts acc) + length exs"
proof (induction exs arbitrary: acc w)
  case Nil
  then show ?case by simp
next
  case (Cons ex exs)
  then obtain st w1 where b: "compose_example api tk rs p ex w = (Inr st, w1)"
    and r: "collate_loop api tk rs p exs (append_step acc st) w1 = (Inr acc', w')"
    by (auto split: prod.splits sum.splits)
  from Cons.IH [OF r] show ?case by (simp add: append_step_simps)
qed

lemma collate_loop_prefix:
  "collate_loop api tk rs p exs acc w = (Inr acc', w') \<Longrightarrow>
     take (length (kinds_list acc)) (kinds_list acc') = kinds_list acc
   \<and> take (length (image_start_positions acc)) (image_start_positions acc') = image_start_positions acc
   \<and> take (length (prompts acc)) (prompts acc') = prompts acc"
proof (induction exs arbitrary: acc w)
  case Nil
  then show ?case by simp
next
  case (Cons ex exs)
  then obtain st w1 where b: "compose_example api tk rs p ex w = (Inr st, w1)"
    and r: "collate_loop api tk rs p exs (append_step acc st) w1 = (Inr acc', w')"
    by (auto split: prod.splits sum.splits)
  from Cons.IH [OF r] have
    "take (Suc (length (kinds_list acc))) (kinds_list acc') = kinds_list acc @ [kind st]"
    "take (Suc (length (image_start_positions acc))) (image_start_positions acc') = image_start_positions acc @ [image_start_position st]"
    "take (Suc (length (prompts acc))) (prompts acc') = prompts acc @ [prompt st]"
    by (simp_all add: append_step_simps)
  then show ?case
    by (metis append_eq_conv_conj take_take min.absorb1 le_add1 plus_1_eq_Suc add.commute)
qed

lemma collate_loop_nth:
  "collate_loop api tk rs p exs acc w = (Inr acc', w') \<Longrightarrow> i < length exs \<Longrightarrow>
     \<exists>st. compose_example api tk rs p (exs ! i) (world_before api tk rs p exs w i)
            = (Inr st, world_before api tk rs p exs w (Suc i))
        \<and> kinds_list acc' ! (length (kinds_list acc) + i) = kind st
        \<and> image_start_positions acc' ! (length (image_start_positions acc) + i) = image_start_position st
        \<and> prompts acc' ! (length (prompts acc) + i) = prompt st"
proof (induction exs arbitrary: acc w i)
  case Nil
  then show ?case by simp
next
  case (Cons ex exs)
  then obtain st w1 where b: "compose_example api tk rs p ex w = (Inr st, w1)"
    and r: "collate_loop api tk rs p exs (append_step acc st) w1 = (Inr acc', w')"
    by (auto split: prod.splits sum.splits)
  show ?case
  proof (cases i)
    case 0
    from collate_loop_prefix [OF r] have
      "take (Suc (length (kinds_list acc))) (kinds_list acc') = kinds_list acc @ [kind st]"
      "take (Suc (length (image_start_positions acc))) (image_start_positions acc') = image_start_positions acc @ [image_start_position st]"
      "take (Suc (length (prompts acc))) (prompts acc') = prompts acc @ [prompt st]"
      by (simp_all add: append_step_simps)
    then have
      "kinds_list acc' ! length (kinds_list acc) = kind st"
      "image_start_positions acc' ! length (image_start_positions acc) = image_start_position st"
      "prompts acc' ! length (prompts acc) = prompt st"
      by (metis lessI nth_take nth_append_length)+
    with 0 b show ?thesis
      by (cases exs) simp_all
  next
    case (Suc k)
    with Cons.prems have k: "k < length exs" by simp
    from Cons.IH [OF r k] Suc b show ?thesis
      by (simp add: append_step_simps)
  qed
qed

lemma world_before_end:
  "collate_loop api tk rs p exs acc w = (Inr acc', w') \<Longrightarrow>
     world_before api tk rs p exs w (length exs) = w'"
proof (induction exs arbitrary: acc w)
  case Nil
  then show ?case by simp
next
  case (Cons ex exs)
  then obtain st w1 where b: "compose_example api tk rs p ex w = (Inr st, w1)"
    and r: "collate_loop api tk rs p exs (append_step acc st) w1 = (Inr acc', w')"
    by (auto split: prod.splits sum.splits)
  from Cons.IH [OF r] b show ?case by simp
qed

lemma collater_Inr:
  assumes "get_custom_collater api tk rs p features w = (Inr b, w')"
  shows "0 \<le> p \<and> p \<le> 1 \<and> (\<exists>acc w1 enc.
           collate_loop api tk rs p features empty_lists w = (Inr acc, w1)
         \<and> encode_batch api tk (prompts acc) = Inr enc
         \<and> w' = w1\<lparr>calls := calls w1 @ [EncodeBatch (prompts acc)]\<rparr>
         \<and> input_ids b = enc_input_ids enc
         \<and> attention_mask b = enc_attention_mask enc
         \<and> image_masks b = fill_masks (zeros (nrows (enc_attention_mask enc), ncols (enc_attention_mask enc))) 0
                              (image_start_positions acc)
         \<and> kinds b = kinds_list acc)"
  using assms
  by (auto simp: get_custom_collater_def encode_call_def shape_def
           split: if_splits prod.splits sum.splits)

lemma empty_lists_simps:
  "kinds_list empty_lists = []" "image_start_positions empty_lists = []" "prompts empty_lists = []"
  by (simp_all add: empty_lists_def)

lemma loop_from_empty:
  assumes "collate_loop api tk rs p features empty_lists w = (Inr acc, w')"
  shows "length (kinds_list acc) = length features"
    and "length (image_start_positions acc) = length features"
    and "length (prompts acc) = length features"
    and "i < length features \<Longrightarrow>
          \<exists>st. compose_example api tk rs p (features ! i) (world_before api tk rs p features w i)
                  = (Inr st, world_before api tk rs p features w (Suc i))
              \<and> kinds_list acc ! i = kind st
              \<and> image_start_positions acc ! i = image_start_position st
              \<and> prompts acc ! i = prompt st"
  using collate_loop_lengths [OF assms] collate_loop_nth [OF assms, of i]
  by (simp_all add: empty_lists_simps)

section \<open>The sample run\<close>

lemmas token_defs = IMAGE_TOKEN_def IMAGE_FIRST_TOKEN_def TEXT_TOKEN_def TEXT_FIRST_TOKEN_def

lemma four_mod_two: "(4::nat) mod Suc (Suc 0) = 0"
  unfolding numeral_2_eq_2 [symmetric] by simp

lemma sample_loop:
  "collate_loop (grid_tokenizer W) [] cyclic_rng (1/2) sample_features empty_lists sample_world
     = (Inr sample_lists, sample_world_after_loop)"
  by (simp add: sample_features_def sample_world_def sample_lists_def sample_world_after_loop_def
      sample_prompts_def empty_lists_def append_step_def compose_example_def Let_def
      random_call_def choice_call_def tokenize_call_def make_prompt_def token_defs
      grid_tokenizer_def cyclic_rng_def four_mod_two float_sub_one_half float_sub_one_zero)

lemma sample_run:
  "get_custom_collater (grid_tokenizer W) [] cyclic_rng (1/2) sample_features sample_world
     = (Inr (sample_batch W), sample_world_after)"
  by (simp add: get_custom_collater_def sample_loop)
     (simp add: sample_lists_def encode_call_def grid_tokenizer_def sample_batch_def
        sample_world_after_def sample_world_after_loop_def shape_def sample_prompts_def
        numeral_2_eq_2 del: fill_masks.simps)

lemma loop_example_facts:
  assumes "collate_loop api tk rs p features empty_lists w = (Inr acc, w')"
      and "i < length features"
  shows "let wi = world_before api tk rs p features w i;
             toss = (fst (random_call rs wi) > float_sub 1 p)
         in \<exists>caption w2.
              resolve_caption rs (captions (features ! i)) (snd (random_call rs wi)) = (Inr caption, w2)
            \<and> prompts acc ! i = make_prompt toss caption (palette_images (features ! i))
            \<and> kinds_list acc ! i = (if toss then 1 else 0)
            \<and> (if toss
                then \<exists>toks. tokenize api tk caption = Inr toks
                           \<and> image_start_positions acc ! i = 3 + length toks
                else image_start_positions acc ! i = 2)"
proof -
  from loop_from_empty(4) [OF assms] obtain st where
    c: "compose_example api tk rs p (features ! i) (world_before api tk rs p features w i)
          = (Inr st, world_before api tk rs p features w (Suc i))"
    and k: "kinds_list acc ! i = kind st"
    and s: "image_start_positions acc ! i = image_start_position st"
    and q: "prompts acc ! i = prompt st"
    by blast
  from compose_example_Inr [OF c] k s q show ?thesis
    unfolding Let_def by (auto split: if_splits)
qed

lemma cyclic_rng_unit_interval:
  "\<forall>r. 0 \<le> fst (rng_random cyclic_rng r) \<and> fst (rng_random cyclic_rng r) < 1"
proof
  fix r :: nat
  have "r mod 4 < 4" by simp
  then have "real (r mod 4) < 4" by (metis of_nat_less_iff of_nat_numeral)
  then show "0 \<le> fst (rng_random cyclic_rng r) \<and> fst (rng_random cyclic_rng r) < 1"
    by (simp add: cyclic_rng_def)
qed

lemma cyclic_rng_choice_member:
  "\<forall>r xs. xs \<noteq> [] \<longrightarrow> fst (rng_choice cyclic_rng r xs) \<in> set xs"
  by (simp add: cyclic_rng_def)

lemma sample_loop_image_first:
  "collate_loop (grid_tokenizer W) [] cyclic_rng 0 sample_features empty_lists sample_world
     = (Inr \<lparr>kinds_list = [0, 0], image_start_positions = [2, 2], prompts = sample_prompts_image_first\<rparr>,
        \<lparr>rng_state = 5, calls = [Random, Random, Choice [''a cat'', ''a feline'']]\<rparr>)"
  by (simp add: sample_features_def sample_world_def sample_prompts_image_first_def
      empty_lists_def append_step_def compose_example_def Let_def
      random_call_def choice_call_def tokenize_call_def make_prompt_def token_defs
      grid_tokenizer_def cyclic_rng_def four_mod_two float_sub_one_half float_sub_one_zero)

lemma sample_run_image_first:
  "get_custom_collater (grid_tokenizer W) [] cyclic_rng 0 sample_features sample_world
     = (Inr (sample_batch_image_first W), sample_world_after_image_first)"
  by (simp add: get_custom_collater_def sample_loop_image_first)
     (simp add: encode_call_def grid_tokenizer_def sample_batch_image_first_def
        sample_world_after_image_first_def shape_def sample_prompts_image_first_def
        numeral_2_eq_2 del: fill_masks.simps)

lemma sample_features_length: "length sample_features = 2"
  by (simp add: sample_features_def)

lemma collater_result:
  assumes loop: "collate_loop api tk rs p features empty_lists w = (Inr acc, w1)"
      and run: "get_custom_collater api tk rs p features w = (Inr b, w')"
  shows "encode_batch api tk (prompts acc)
           = Inr \<lparr>enc_input_ids = input_ids b, enc_attention_mask = attention_mask b\<rparr>"
    and "image_masks b = fill_masks (zeros (nrows (attention_mask b), ncols (attention_mask b))) 0
                           (image_start_positions acc)"
    and "kinds b = kinds_list acc"
    and "w' = w1\<lparr>calls := calls w1 @ [EncodeBatch (prompts acc)]\<rparr>"
proof -
  from collater_Inr [OF run] obtain acc2 w2 enc where
    l2: "collate_loop api tk rs p features empty_lists w = (Inr acc2, w2)"
    and e: "encode_batch api tk (prompts acc2) = Inr enc"
    and w: "w' = w2\<lparr>calls := calls w2 @ [EncodeBatch (prompts acc2)]\<rparr>"
    and i: "input_ids b = enc_input_ids enc"
    and a: "attention_mask b = enc_attention_mask enc"
    and m: "image_masks b = fill_masks (zeros (nrows (enc_attention_mask enc), ncols (enc_attention_mask enc))) 0
                              (image_start_positions acc2)"
    and k: "kinds b = kinds_list acc2"
    by blast
  from loop l2 have eq: "acc2 = acc" "w2 = w1" by simp_all
  show "encode_batch api tk (prompts acc)
           = Inr \<lparr>enc_input_ids = input_ids b, enc_attention_mask = attention_mask b\<rparr>"
    using e i a eq by simp
  show "image_masks b = fill_masks (zeros (nrows (attention_mask b), ncols (attention_mask b))) 0
                           (image_start_positions acc)"
    using m a eq by simp
  show "kinds b = kinds_list acc" using k eq by simp
  show "w' = w1\<lparr>calls := calls w1 @ [EncodeBatch (prompts acc)]\<rparr>" using w eq by simp
qed

lemma collater_total:
  assumes "0 \<le> p \<and> p \<le> 1"
      and "collate_loop api tk rs p features empty_lists w = (Inr acc, w1)"
      and "encode_batch api tk (prompts acc) = Inr enc"
  shows "get_custom_collater api tk rs p features w =
           (Inr \<lparr>input_ids = enc_input_ids enc,
                 attention_mask = enc_attention_mask enc,
                 image_masks = fill_masks (zeros (shape (enc_attention_mask enc))) 0
                                 (image_start_positions acc),
                 kinds = kinds_list acc\<rparr>,
            w1\<lparr>calls := calls w1 @ [EncodeBatch (prompts acc)]\<rparr>)"
  using assms by (simp add: get_custom_collater_def encode_call_def)

lemma mask_row_entries:
  assumes "r < length ss" "r < R" "j < L"
  shows "entry (fill_masks (zeros (R, L)) 0 ss) r j = (ss ! r \<le> j \<and> j < ss ! r + IMAGE_LEN)"
  using assms by (auto simp: fill_zeros_entry)

lemma mask_dims:
  "nrows (fill_masks (zeros (R, L)) 0 ss) = R" "ncols (fill_masks (zeros (R, L)) 0 ss) = L"
  by (simp_all add: fill_masks_nrows fill_masks_ncols zeros_dims)

lemma IMAGE_LEN_value: "IMAGE_LEN = 1024"
  by (simp add: IMAGE_LEN_def IMAGE_DIM_def)

lemma sample_batch_simps:
  "image_masks (sample_batch W) = fill_masks (zeros (2, W)) 0 [2, 8]"
  "attention_mask (sample_batch W) = \<lparr>nrows = 2, ncols = W, entry = (\<lambda>i j. 1)\<rparr>"
  "input_ids (sample_batch W) = \<lparr>nrows = 2, ncols = W, entry = (\<lambda>i j. 0)\<rparr>"
  "kinds (sample_batch W) = [0, 1]"
  by (simp_all add: sample_batch_def)

lemma sample_lists_simps:
  "image_start_positions sample_lists = [2, 8]" "kinds_list sample_lists = [0, 1]"
  "prompts sample_lists = sample_prompts"
  by (simp_all add: sample_lists_def)

lemma all_real_token_count:
  "real_token_count \<lparr>nrows = R, ncols = W, entry = (\<lambda>i j. 1)\<rparr> i = W"
  by (simp add: real_token_count_def row_def filter_map comp_def)

lemma vocab_lookup_None: "(vocab_lookup v s = None) = (s \<notin> set v)"
  by (induction v) auto

lemma vocab_lookup_dom: "dom (vocab_lookup v) = set v"
  by (auto simp: dom_def vocab_lookup_None)

lemma vocab_add_tokens_set: "set (vocab_add_tokens v xs) = set v \<union> set xs"
  unfolding vocab_add_tokens_def by (induction xs arbitrary: v) auto

lemma vocab_add_tokens_noop: "set xs \<subseteq> set v \<Longrightarrow> vocab_add_tokens v xs = v"
  unfolding vocab_add_tokens_def by (induction xs arbitrary: v) auto

lemma grid_tokenizer_noop:
  "\<forall>t xs. set xs \<subseteq> dom (get_vocab (grid_tokenizer W) t) \<longrightarrow> add_tokens (grid_tokenizer W) t xs = t"
  by (simp add: grid_tokenizer_def vocab_lookup_dom vocab_add_tokens_noop)

lemma grid_tokenizer_registers:
  "\<forall>t xs. dom (get_vocab (grid_tokenizer W) t) \<union> set xs
            \<subseteq> dom (get_vocab (grid_tokenizer W) (add_tokens (grid_tokenizer W) t xs))"
  by (simp add: grid_tokenizer_def vocab_lookup_dom vocab_add_tokens_set)

lemma compose_example_one_tenth:
  "compose_example (grid_tokenizer W) [] (constant_rng nine_tenths) one_tenth
     \<lparr>palette_images = ''[001]'', captions = Str ''cat''\<rparr> \<lparr>rng_state = 0, calls = []\<rparr>
   = (Inr \<lparr>kind = 0, image_start_position = 2, prompt = ''[ImageFirst][001][Text]cat''\<rparr>,
      \<lparr>rng_state = 1, calls = [Random]\<rparr>)"
  by (simp add: compose_example_def Let_def random_call_def constant_rng_def
      float_sub_one_tenth make_prompt_def token_defs)

lemma collate_loop_one_tenth:
  "collate_loop (grid_tokenizer W) [] (constant_rng nine_tenths) one_tenth
     [\<lparr>palette_images = ''[001]'', captions = Str ''cat''\<rparr>] empty_lists \<lparr>rng_state = 0, calls = []\<rparr>
   = (Inr \<lparr>kinds_list = [0], image_start_positions = [2], prompts = [''[ImageFirst][001][Text]cat'']\<rparr>,
      \<lparr>rng_state = 1, calls = [Random]\<rparr>)"
  by (simp add: compose_example_one_tenth append_step_def empty_lists_def)

section \<open>The claims\<close>

text \<open>
  C4: when \<open>p\<close> lies outside the closed interval from 0 to 1, the collater fails with the
  assertion error before it does anything else: the state of the generator is the one
  it was called with (no draw was made) and the call log is unchanged (no call of
  \<^verbatim>\<open>tokenize\<close>, no batch call of the tokenizer, so no prompt reached it).
\<close>

theorem collater_rejects_p_out_of_range:
  assumes "\<not> (0 \<le> p \<and> p \<le> 1)"
  shows "fst (get_custom_collater api tk rs p features w) = Inl AssertionError
       \<and> rng_state (snd (get_custom_collater api tk rs p features w)) = rng_state w
       \<and> calls (snd (get_custom_collater api tk rs p features w)) = calls w"
  using assms by (simp add: get_custom_collater_def)

theorem collater_rejects_p_out_of_range_witness:
  "\<not> (0 \<le> (3/2::real) \<and> (3/2::real) \<le> 1)
   \<and> fst (get_custom_collater (grid_tokenizer 40) [] cyclic_rng (3/2) sample_features sample_world)
       = Inl AssertionError
   \<and> rng_state (snd (get_custom_collater (grid_tokenizer 40) [] cyclic_rng (3/2) sample_features sample_world))
       = 2
   \<and> calls (snd (get_custom_collater (grid_tokenizer 40) [] cyclic_rng (3/2) sample_features sample_world))
       = []"
proof -
  have h: "\<not> (0 \<le> (3/2::real) \<and> (3/2::real) \<le> 1)" by simp
  from collater_rejects_p_out_of_range [OF h, of "grid_tokenizer 40" "[]" cyclic_rng sample_features sample_world]
  show ?thesis using h by (simp add: sample_world_def)
qed

text \<open>
  C1: in a run of the loop that reaches its end, the image start position recorded for
  example \<open>i\<close> is 2 when the toss chose the image-first prompt, and 3 plus the number of
  tokens that \<^verbatim>\<open>tokenize\<close> returns for the resolved caption alone when the toss chose the
  text-first prompt. The toss is the draw compared with the float difference \<^verbatim>\<open>1.0 - p\<close>.
\<close>

theorem image_start_position_formula:
  assumes "collate_loop api tk rs p features empty_lists w = (Inr acc, w')"
      and "i < length features"
  shows "let wi = world_before api tk rs p features w i;
             toss = (fst (random_call rs wi) > float_sub 1 p)
         in \<exists>caption w2.
              resolve_caption rs (captions (features ! i)) (snd (random_call rs wi)) = (Inr caption, w2)
            \<and> (if toss
                then prompts acc ! i = make_prompt True caption (palette_images (features ! i))
                   \<and> (\<exists>toks. tokenize api tk caption = Inr toks
                            \<and> image_start_positions acc ! i = 3 + length toks)
                else prompts acc ! i = make_prompt False caption (palette_images (features ! i))
                   \<and> image_start_positions acc ! i = 2)"
  using loop_example_facts [OF assms] unfolding Let_def by (auto split: if_splits)

theorem image_start_position_formula_witness:
  "collate_loop (grid_tokenizer 40) [] cyclic_rng (1/2) sample_features empty_lists sample_world
     = (Inr sample_lists, sample_world_after_loop)
   \<and> (1::nat) < length sample_features
   \<and> (let wi = world_before (grid_tokenizer 40) [] cyclic_rng (1/2) sample_features sample_world 1;
           toss = (fst (random_call cyclic_rng wi) > float_sub 1 (1/2))
       in \<exists>caption w2.
              resolve_caption cyclic_rng (captions (sample_features ! 1)) (snd (random_call cyclic_rng wi)) = (Inr caption, w2)
            \<and> (if toss
                then prompts sample_lists ! 1 = make_prompt True caption (palette_images (sample_features ! 1))
                   \<and> (\<exists>toks. tokenize (grid_tokenizer 40) [] caption = Inr toks
                            \<and> image_start_positions sample_lists ! 1 = 3 + length toks)
                else prompts sample_lists ! 1 = make_prompt False caption (palette_images (sample_features ! 1))
                   \<and> image_start_positions sample_lists ! 1 = 2))"
proof -
  note l = sample_loop [of 40]
  have n: "(1::nat) < length sample_features" by (simp add: sample_features_length)
  show ?thesis
    by (intro conjI) (rule l, rule n, rule image_start_position_formula [OF l n])
qed

text \<open>
  C5: the prompt composed for example \<open>i\<close> is one of two fixed concatenations, chosen by
  the toss (the draw compared with the float difference \<^verbatim>\<open>1.0 - p\<close>): the text-first marker, the caption, the image marker and the image; or the
  image-first marker, the image, the text marker and the caption. Nothing else is
  inserted.
\<close>

theorem prompt_layout:
  assumes "collate_loop api tk rs p features empty_lists w = (Inr acc, w')"
      and "i < length features"
  shows "let wi = world_before api tk rs p features w i;
             toss = (fst (random_call rs wi) > float_sub 1 p)
         in \<exists>caption w2.
              resolve_caption rs (captions (features ! i)) (snd (random_call rs wi)) = (Inr caption, w2)
            \<and> prompts acc ! i =
                (if toss then ''[TextFirst]'' @ caption @ ''[Image]'' @ palette_images (features ! i)
                 else ''[ImageFirst]'' @ palette_images (features ! i) @ ''[Text]'' @ caption)"
  using loop_example_facts [OF assms] unfolding Let_def make_prompt_def token_defs
  by (auto split: if_splits)

theorem prompt_layout_witness:
  "collate_loop (grid_tokenizer 40) [] cyclic_rng (1/2) sample_features empty_lists sample_world
     = (Inr sample_lists, sample_world_after_loop)
   \<and> (1::nat) < length sample_features
   \<and> (let wi = world_before (grid_tokenizer 40) [] cyclic_rng (1/2) sample_features sample_world 1;
           toss = (fst (random_call cyclic_rng wi) > float_sub 1 (1/2))
       in \<exists>caption w2.
              resolve_caption cyclic_rng (captions (sample_features ! 1)) (snd (random_call cyclic_rng wi)) = (Inr caption, w2)
            \<and> prompts sample_lists ! 1 =
                (if toss then ''[TextFirst]'' @ caption @ ''[Image]'' @ palette_images (sample_features ! 1)
                 else ''[ImageFirst]'' @ palette_images (sample_features ! 1) @ ''[Text]'' @ caption))"
proof -
  note l = sample_loop [of 40]
  have n: "(1::nat) < length sample_features" by (simp add: sample_features_length)
  show ?thesis
    by (intro conjI) (rule l, rule n, rule prompt_layout [OF l n])
qed

text \<open>
  C7: the caption of example \<open>i\<close> is resolved once: a single string is used as it is, and
  from a sequence of strings the \<^verbatim>\<open>choice\<close> operation of the random source picks one (an
  element of the sequence, for a source whose \<^verbatim>\<open>choice\<close> returns elements). That one string
  is the caption inside the prompt, and the string whose tokens are counted for the
  image start position of a text-first prompt (chosen when the draw exceeds the float
  difference \<^verbatim>\<open>1.0 - p\<close>).
\<close>

theorem caption_resolved_once:
  assumes "\<forall>r xs. xs \<noteq> [] \<longrightarrow> fst (rng_choice rs r xs) \<in> set xs"
      and "collate_loop api tk rs p features empty_lists w = (Inr acc, w')"
      and "i < length features"
  shows "let wi = world_before api tk rs p features w i;
             toss = (fst (random_call rs wi) > float_sub 1 p);
             w1 = snd (random_call rs wi)
         in \<exists>caption w2.
              resolve_caption rs (captions (features ! i)) w1 = (Inr caption, w2)
            \<and> (case captions (features ! i) of
                  Str s \<Rightarrow> caption = s \<and> w2 = w1
                | StrList xs \<Rightarrow> caption = fst (rng_choice rs (rng_state w1) xs) \<and> caption \<in> set xs
                                 \<and> calls w2 = calls w1 @ [Choice xs])
            \<and> prompts acc ! i = make_prompt toss caption (palette_images (features ! i))
            \<and> (if toss
                then \<exists>toks. tokenize api tk caption = Inr toks
                           \<and> image_start_positions acc ! i = 3 + length toks
                else image_start_positions acc ! i = 2)"
proof -
  let ?wi = "world_before api tk rs p features w i"
  let ?w1 = "snd (random_call rs ?wi)"
  from loop_example_facts [OF assms(2,3)] obtain caption w2 where
    r: "resolve_caption rs (captions (features ! i)) ?w1 = (Inr caption, w2)"
    and rest: "prompts acc ! i = make_prompt (fst (random_call rs ?wi) > float_sub 1 p) caption (palette_images (features ! i))"
      "if fst (random_call rs ?wi) > float_sub 1 p
       then \<exists>toks. tokenize api tk caption = Inr toks \<and> image_start_positions acc ! i = 3 + length toks
       else image_start_positions acc ! i = 2"
    unfolding Let_def by blast
  have "case captions (features ! i) of
          Str s \<Rightarrow> caption = s \<and> w2 = ?w1
        | StrList xs \<Rightarrow> caption = fst (rng_choice rs (rng_state ?w1) xs) \<and> caption \<in> set xs
                         \<and> calls w2 = calls ?w1 @ [Choice xs]"
    using r assms(1)
    by (cases "captions (features ! i)") (auto simp: choice_call_def split: if_splits)
  with r rest show ?thesis unfolding Let_def by blast
qed

theorem caption_resolved_once_witness:
  "fst (rng_choice cyclic_rng 4 [''a cat'', ''a feline'']) \<in> set [''a cat'', ''a feline'']
   \<and> collate_loop (grid_tokenizer 40) [] cyclic_rng (1/2) sample_features empty_lists sample_world
     = (Inr sample_lists, sample_world_after_loop)
   \<and> (1::nat) < length sample_features
   \<and> (let wi = world_before (grid_tokenizer 40) [] cyclic_rng (1/2) sample_features sample_world 1;
             toss = (fst (random_call cyclic_rng wi) > float_sub 1 (1/2));
             w1 = snd (random_call cyclic_rng wi)
         in \<exists>caption w2.
              resolve_caption cyclic_rng (captions (sample_features ! 1)) w1 = (Inr caption, w2)
            \<and> (case captions (sample_features ! 1) of
                  Str s \<Rightarrow> caption = s \<and> w2 = w1
                | StrList xs \<Rightarrow> caption = fst (rng_choice cyclic_rng (rng_state w1) xs) \<and> caption \<in> set xs
                                 \<and> calls w2 = calls w1 @ [Choice xs])
            \<and> prompts sample_lists ! 1 = make_prompt toss caption (palette_images (sample_features ! 1))
            \<and> (if toss
                then \<exists>toks. tokenize (grid_tokenizer 40) [] caption = Inr toks
                           \<and> image_start_positions sample_lists ! 1 = 3 + length toks
                else image_start_positions sample_lists ! 1 = 2))"
proof -
  note l = sample_loop [of 40]
  have n: "(1::nat) < length sample_features" by (simp add: sample_features_length)
  from cyclic_rng_choice_member
  have m: "fst (rng_choice cyclic_rng 4 [''a cat'', ''a feline'']) \<in> set [''a cat'', ''a feline'']"
    by blast
  show ?thesis
    by (intro conjI)
       (rule m, rule l, rule n, rule caption_resolved_once [OF cyclic_rng_choice_member l n])
qed

text \<open>
  C3: with \<open>p = 0\<close> and a random source whose draws all lie in the interval from 0
  (included) to 1 (excluded), no toss chooses text-first (\<open>u > 1 - 0\<close> never holds, and
  the float difference \<^verbatim>\<open>1.0 - 0.0\<close> is 1), and every entry of \<open>kinds\<close> of the returned batch
  is 0.
\<close>

theorem p_zero_all_image_first:
  assumes "\<forall>r. 0 \<le> fst (rng_random rs r) \<and> fst (rng_random rs r) < 1"
      and "get_custom_collater api tk rs 0 features w = (Inr b, w')"
  shows "(\<forall>i<length features.
            \<not> fst (random_call rs (world_before api tk rs 0 features w i)) > 1 - 0)
       \<and> kinds b = replicate (length features) 0
       \<and> float_sub 1 0 = 1
       \<and> (\<forall>i<length features.
            \<not> fst (random_call rs (world_before api tk rs 0 features w i)) > float_sub 1 0)"
proof -
  have never: "\<not> fst (random_call rs v) > 1 - 0" for v
    using assms(1) by (simp add: random_call_def not_less less_imp_le)
  then have never': "\<not> fst (random_call rs v) > float_sub 1 0" for v
    by (simp add: float_sub_one_zero)
  from collater_Inr [OF assms(2)] obtain acc w1 where
    l: "collate_loop api tk rs 0 features empty_lists w = (Inr acc, w1)"
    and k: "kinds b = kinds_list acc"
    by blast
  have len: "length (kinds_list acc) = length features"
    by (rule loop_from_empty(1) [OF l])
  have "kinds_list acc ! i = 0" if "i < length features" for i
    using loop_example_facts [OF l that] never' unfolding Let_def by auto
  with len have "kinds_list acc = replicate (length features) 0"
    by (intro nth_equalityI) simp_all
  with k never never' show ?thesis by (simp add: float_sub_one_zero)
qed

theorem p_zero_all_image_first_witness:
  "0 \<le> fst (rng_random cyclic_rng 3) \<and> fst (rng_random cyclic_rng 3) < 1
   \<and> get_custom_collater (grid_tokenizer 40) [] cyclic_rng 0 sample_features sample_world
       = (Inr (sample_batch_image_first 40), sample_world_after_image_first)
   \<and> \<not> fst (random_call cyclic_rng
              (world_before (grid_tokenizer 40) [] cyclic_rng 0 sample_features sample_world 1)) > 1 - 0
   \<and> kinds (sample_batch_image_first 40) = replicate (length sample_features) 0"
proof -
  note r = sample_run_image_first [of 40]
  note t = p_zero_all_image_first [OF cyclic_rng_unit_interval r]
  have n: "(1::nat) < length sample_features" by (simp add: sample_features_length)
  from cyclic_rng_unit_interval
  have u: "0 \<le> fst (rng_random cyclic_rng 3) \<and> fst (rng_random cyclic_rng 3) < 1" by blast
  from t n have a: "\<not> fst (random_call cyclic_rng
              (world_before (grid_tokenizer 40) [] cyclic_rng 0 sample_features sample_world 1)) > 1 - 0"
    by blast
  from t have k: "kinds (sample_batch_image_first 40) = replicate (length sample_features) 0"
    by (elim conjE)
  from u r a k show ?thesis
    by (intro conjI) (elim conjE; assumption)+
qed

text \<open>
  C2: the mask is the all-false grid of the shape of the attention mask, written by the
  loop over the rows. In the row of example \<open>i\<close> the entries that are \<open>True\<close> are exactly
  those of the span from the image start position up to that position plus
  \<open>IMAGE_LEN\<close>; when the real token count of the row is at least the position plus 1024,
  the row has exactly 1024 entries that are \<open>True\<close>.
\<close>

theorem image_mask_span:
  assumes "collate_loop api tk rs p features empty_lists w = (Inr acc, w1)"
      and "get_custom_collater api tk rs p features w = (Inr b, w')"
      and "i < length features"
      and "i < nrows (image_masks b)"
  shows "image_masks b = fill_masks (zeros (shape (attention_mask b))) 0 (image_start_positions acc)
       \<and> (\<forall>r j. \<not> entry (zeros (shape (attention_mask b))) r j)
       \<and> (\<forall>j<ncols (image_masks b).
             entry (image_masks b) i j
               = (image_start_positions acc ! i \<le> j \<and> j < image_start_positions acc ! i + IMAGE_LEN))
       \<and> IMAGE_LEN = 1024
       \<and> (image_start_positions acc ! i + 1024 \<le> real_token_count (attention_mask b) i
            \<longrightarrow> true_count (image_masks b) i = 1024)"
proof -
  let ?R = "nrows (attention_mask b)" and ?L = "ncols (attention_mask b)"
  let ?ss = "image_start_positions acc"
  have m: "image_masks b = fill_masks (zeros (?R, ?L)) 0 ?ss"
    by (rule collater_result(2) [OF assms(1,2)])
  have len: "i < length ?ss"
    using loop_from_empty(2) [OF assms(1)] assms(3) by simp
  have iR: "i < ?R" using assms(4) by (simp add: m mask_dims)
  have span: "\<forall>j<ncols (image_masks b).
      entry (image_masks b) i j = (?ss ! i \<le> j \<and> j < ?ss ! i + IMAGE_LEN)"
    by (simp add: m mask_dims mask_row_entries [OF len iR])
  have cnt: "true_count (image_masks b) i = 1024"
    if h: "?ss ! i + 1024 \<le> real_token_count (attention_mask b) i"
  proof -
    from h real_token_count_le [of "attention_mask b" i] have "?ss ! i + 1024 \<le> ?L" by simp
    then show ?thesis
      by (simp add: m fill_zeros_true_count [OF len iR] IMAGE_LEN_value)
  qed
  show ?thesis
    using m span cnt by (simp add: shape_def zeros_def IMAGE_LEN_value)
qed

theorem image_mask_span_witness:
  "collate_loop (grid_tokenizer 1100) [] cyclic_rng (1/2) sample_features empty_lists sample_world
     = (Inr sample_lists, sample_world_after_loop)
   \<and> get_custom_collater (grid_tokenizer 1100) [] cyclic_rng (1/2) sample_features sample_world
     = (Inr (sample_batch 1100), sample_world_after)
   \<and> (0::nat) < length sample_features
   \<and> 0 < nrows (image_masks (sample_batch 1100))
   \<and> image_start_positions sample_lists ! 0 = 2
   \<and> image_start_positions sample_lists ! 0 + 1024 \<le> real_token_count (attention_mask (sample_batch 1100)) 0
   \<and> true_count (image_masks (sample_batch 1100)) 0 = 1024
   \<and> \<not> entry (image_masks (sample_batch 1100)) 0 1
   \<and> entry (image_masks (sample_batch 1100)) 0 2
   \<and> entry (image_masks (sample_batch 1100)) 0 1025
   \<and> \<not> entry (image_masks (sample_batch 1100)) 0 1026"
proof -
  note l = sample_loop [of 1100] and r = sample_run [of 1100]
  have n: "(0::nat) < length sample_features" by (simp add: sample_features_length)
  have k: "0 < nrows (image_masks (sample_batch 1100))"
    unfolding sample_batch_simps mask_dims by simp
  have w: "ncols (image_masks (sample_batch 1100)) = 1100"
    unfolding sample_batch_simps mask_dims by simp
  have s: "image_start_positions sample_lists ! 0 = 2"
    by (simp add: sample_lists_simps)
  have c: "image_start_positions sample_lists ! 0 + 1024
             \<le> real_token_count (attention_mask (sample_batch 1100)) 0"
    unfolding s sample_batch_simps all_real_token_count by simp
  note t = image_mask_span [OF l r n k]
  from t have span: "\<forall>j<ncols (image_masks (sample_batch 1100)).
         entry (image_masks (sample_batch 1100)) 0 j
           = (image_start_positions sample_lists ! 0 \<le> j
              \<and> j < image_start_positions sample_lists ! 0 + IMAGE_LEN)"
    by (elim conjE)
  have e: "\<not> entry (image_masks (sample_batch 1100)) 0 1"
    "entry (image_masks (sample_batch 1100)) 0 2"
    "entry (image_masks (sample_batch 1100)) 0 1025"
    "\<not> entry (image_masks (sample_batch 1100)) 0 1026"
    using span unfolding w s IMAGE_LEN_value by simp_all
  from t have "image_start_positions sample_lists ! 0 + 1024
                 \<le> real_token_count (attention_mask (sample_batch 1100)) 0
               \<longrightarrow> true_count (image_masks (sample_batch 1100)) 0 = 1024"
    by (elim conjE)
  with c have cnt: "true_count (image_masks (sample_batch 1100)) 0 = 1024"
    by (rule rev_mp)
  show ?thesis
    by (intro conjI) (rule l, rule r, rule n, rule k, rule s, rule c, rule cnt, (rule e)+)
qed

text \<open>
  C9: once the loop and the batch call of the tokenizer have succeeded, the collater
  returns a batch: the mask assignment has no failing case. It leaves the shape of the
  mask as allocated, every entry that is \<open>True\<close> lies inside that shape, and a span that
  runs past the row width \<open>L\<close> is cut at \<open>L\<close>: the row of example \<open>i\<close> then has fewer than
  1024 entries that are \<open>True\<close>, none when the position is \<open>L\<close> or more.
\<close>

theorem image_mask_write_in_bounds:
  assumes "0 \<le> p \<and> p \<le> 1"
      and "collate_loop api tk rs p features empty_lists w = (Inr acc, w1)"
      and "encode_batch api tk (prompts acc) = Inr enc"
  shows "\<exists>b w'. get_custom_collater api tk rs p features w = (Inr b, w')
       \<and> shape (image_masks b) = shape (enc_attention_mask enc)
       \<and> (\<forall>r j. entry (image_masks b) r j \<longrightarrow> r < nrows (image_masks b) \<and> j < ncols (image_masks b))
       \<and> (\<forall>i. i < length features \<and> i < nrows (image_masks b) \<longrightarrow>
             true_count (image_masks b) i
               = min (image_start_positions acc ! i + IMAGE_LEN) (ncols (image_masks b))
                 - min (image_start_positions acc ! i) (ncols (image_masks b))
           \<and> (ncols (image_masks b) < image_start_positions acc ! i + IMAGE_LEN
                \<longrightarrow> true_count (image_masks b) i < 1024)
           \<and> (ncols (image_masks b) \<le> image_start_positions acc ! i
                \<longrightarrow> true_count (image_masks b) i = 0))"
proof -
  let ?R = "nrows (enc_attention_mask enc)" and ?L = "ncols (enc_attention_mask enc)"
  let ?ss = "image_start_positions acc"
  let ?m = "fill_masks (zeros (?R, ?L)) 0 ?ss"
  let ?b = "\<lparr>input_ids = enc_input_ids enc, attention_mask = enc_attention_mask enc,
             image_masks = ?m, kinds = kinds_list acc\<rparr>"
  have run: "get_custom_collater api tk rs p features w
               = (Inr ?b, w1\<lparr>calls := calls w1 @ [EncodeBatch (prompts acc)]\<rparr>)"
    using collater_total [OF assms] by (simp add: shape_def)
  have sh: "shape ?m = shape (enc_attention_mask enc)"
    by (simp add: shape_def mask_dims)
  have inside: "\<forall>r j. entry ?m r j \<longrightarrow> r < nrows ?m \<and> j < ncols ?m"
    by (simp add: fill_zeros_entry mask_dims)
  have len: "length ?ss = length features"
    by (rule loop_from_empty(2) [OF assms(2)])
  have rows: "true_count ?m i = min (?ss ! i + IMAGE_LEN) (ncols ?m) - min (?ss ! i) (ncols ?m)
        \<and> (ncols ?m < ?ss ! i + IMAGE_LEN \<longrightarrow> true_count ?m i < 1024)
        \<and> (ncols ?m \<le> ?ss ! i \<longrightarrow> true_count ?m i = 0)"
    if "i < length features \<and> i < nrows ?m" for i
  proof -
    from that len have a: "i < length ?ss" and b: "i < ?R" by (simp_all add: mask_dims)
    show ?thesis
      unfolding fill_zeros_true_count [OF a b] mask_dims IMAGE_LEN_value by auto
  qed
  have im: "image_masks ?b = ?m" by simp
  show ?thesis
  proof (intro exI conjI)
    show "get_custom_collater api tk rs p features w
            = (Inr ?b, w1\<lparr>calls := calls w1 @ [EncodeBatch (prompts acc)]\<rparr>)"
      by (rule run)
    show "shape (image_masks ?b) = shape (enc_attention_mask enc)"
      unfolding im by (rule sh)
    show "\<forall>r j. entry (image_masks ?b) r j \<longrightarrow> r < nrows (image_masks ?b) \<and> j < ncols (image_masks ?b)"
      unfolding im by (rule inside)
    show "\<forall>i. i < length features \<and> i < nrows (image_masks ?b) \<longrightarrow>
             true_count (image_masks ?b) i
               = min (?ss ! i + IMAGE_LEN) (ncols (image_masks ?b)) - min (?ss ! i) (ncols (image_masks ?b))
           \<and> (ncols (image_masks ?b) < ?ss ! i + IMAGE_LEN \<longrightarrow> true_count (image_masks ?b) i < 1024)
           \<and> (ncols (image_masks ?b) \<le> ?ss ! i \<longrightarrow> true_count (image_masks ?b) i = 0)"
      unfolding im using rows by blast
  qed
qed

theorem image_mask_write_in_bounds_witness:
  "(0 \<le> (1/2::real) \<and> (1/2::real) \<le> 1)
   \<and> collate_loop (grid_tokenizer 5) [] cyclic_rng (1/2) sample_features empty_lists sample_world
       = (Inr sample_lists, sample_world_after_loop)
   \<and> encode_batch (grid_tokenizer 5) [] (prompts sample_lists)
       = Inr \<lparr>enc_input_ids = input_ids (sample_batch 5), enc_attention_mask = attention_mask (sample_batch 5)\<rparr>
   \<and> get_custom_collater (grid_tokenizer 5) [] cyclic_rng (1/2) sample_features sample_world
       = (Inr (sample_batch 5), sample_world_after)
   \<and> (1::nat) < length sample_features \<and> 1 < nrows (image_masks (sample_batch 5))
   \<and> ncols (image_masks (sample_batch 5)) \<le> image_start_positions sample_lists ! 1
   \<and> ncols (image_masks (sample_batch 5)) < image_start_positions sample_lists ! 1 + IMAGE_LEN
   \<and> true_count (image_masks (sample_batch 5)) 1 = 0
   \<and> true_count (image_masks (sample_batch 5)) 1 < 1024
   \<and> entry (image_masks (sample_batch 5)) 0 3
   \<and> (0::nat) < nrows (image_masks (sample_batch 5))
   \<and> (3::nat) < ncols (image_masks (sample_batch 5))"
proof -
  note l = sample_loop [of 5] and r = sample_run [of 5]
  have pv: "0 \<le> (1/2::real) \<and> (1/2::real) \<le> 1" by simp
  have e: "encode_batch (grid_tokenizer 5) [] (prompts sample_lists)
       = Inr \<lparr>enc_input_ids = input_ids (sample_batch 5), enc_attention_mask = attention_mask (sample_batch 5)\<rparr>"
    by (simp add: grid_tokenizer_def sample_batch_simps sample_lists_simps sample_prompts_def)
  have n: "(1::nat) < length sample_features" by (simp add: sample_features_length)
  have k: "1 < nrows (image_masks (sample_batch 5))"
    unfolding sample_batch_simps mask_dims by simp
  have c: "ncols (image_masks (sample_batch 5)) = 5"
    unfolding sample_batch_simps mask_dims by simp
  have s: "image_start_positions sample_lists ! 1 = 8"
    by (simp add: sample_lists_simps)
  have c1: "ncols (image_masks (sample_batch 5)) \<le> image_start_positions sample_lists ! 1"
    unfolding c s by simp
  have c2: "ncols (image_masks (sample_batch 5)) < image_start_positions sample_lists ! 1 + IMAGE_LEN"
    unfolding c s by simp
  from image_mask_write_in_bounds [OF pv l e] obtain b w' where
    run: "get_custom_collater (grid_tokenizer 5) [] cyclic_rng (1/2) sample_features sample_world = (Inr b, w')"
    and inside: "\<forall>r j. entry (image_masks b) r j \<longrightarrow> r < nrows (image_masks b) \<and> j < ncols (image_masks b)"
    and rows: "\<forall>i. i < length sample_features \<and> i < nrows (image_masks b) \<longrightarrow>
             true_count (image_masks b) i
               = min (image_start_positions sample_lists ! i + IMAGE_LEN) (ncols (image_masks b))
                 - min (image_start_positions sample_lists ! i) (ncols (image_masks b))
           \<and> (ncols (image_masks b) < image_start_positions sample_lists ! i + IMAGE_LEN
                \<longrightarrow> true_count (image_masks b) i < 1024)
           \<and> (ncols (image_masks b) \<le> image_start_positions sample_lists ! i
                \<longrightarrow> true_count (image_masks b) i = 0)"
    by blast
  from run r have b: "b = sample_batch 5" by simp
  from rows n k c1 c2 have t0: "true_count (image_masks (sample_batch 5)) 1 = 0"
    and t1: "true_count (image_masks (sample_batch 5)) 1 < 1024"
    unfolding b by blast+
  have nr: "nrows (image_masks (sample_batch 5)) = 2"
    unfolding sample_batch_simps mask_dims by simp
  have e3: "entry (image_masks (sample_batch 5)) 0 3"
    unfolding sample_batch_simps fill_zeros_entry IMAGE_LEN_value by simp
  from inside e3 have ins: "0 < nrows (image_masks (sample_batch 5)) \<and> 3 < ncols (image_masks (sample_batch 5))"
    unfolding b by blast
  from pv l e r n k c1 c2 t0 t1 e3 ins show ?thesis
    by (intro conjI) (elim conjE; assumption)+
qed

text \<open>
  C8: a successful call handles the examples in their order, each once. \<open>kinds\<close> has one
  entry per example, 0 or 1, the entry at \<open>i\<close> being the toss made for example \<open>i\<close> (1 when
  the draw exceeds the float difference \<^verbatim>\<open>1.0 - p\<close>); the
  list of prompts handed to the tokenizer has one prompt per example, the prompt at \<open>i\<close>
  composed from example \<open>i\<close>; \<open>input_ids\<close> and \<open>attention_mask\<close> are what the tokenizer
  returned for that list; and row \<open>i\<close> of \<open>image_masks\<close> carries the span of the position
  recorded for example \<open>i\<close>.
\<close>

theorem collater_preserves_order:
  assumes "collate_loop api tk rs p features empty_lists w = (Inr acc, w1)"
      and "get_custom_collater api tk rs p features w = (Inr b, w')"
  shows "length (kinds b) = length features
       \<and> length (prompts acc) = length features
       \<and> encode_batch api tk (prompts acc)
           = Inr \<lparr>enc_input_ids = input_ids b, enc_attention_mask = attention_mask b\<rparr>
       \<and> calls w' = calls w1 @ [EncodeBatch (prompts acc)]
       \<and> (\<forall>i<length features.
            let wi = world_before api tk rs p features w i;
                toss = (fst (random_call rs wi) > float_sub 1 p)
            in \<exists>caption w2.
                 resolve_caption rs (captions (features ! i)) (snd (random_call rs wi)) = (Inr caption, w2)
               \<and> (kinds b ! i = 0 \<or> kinds b ! i = 1)
               \<and> kinds b ! i = (if toss then 1 else 0)
               \<and> prompts acc ! i = make_prompt toss caption (palette_images (features ! i))
               \<and> (i < nrows (image_masks b) \<longrightarrow>
                    (\<forall>j<ncols (image_masks b).
                       entry (image_masks b) i j
                         = (image_start_positions acc ! i \<le> j
                            \<and> j < image_start_positions acc ! i + IMAGE_LEN))))"
proof -
  note res = collater_result [OF assms]
  note lens = loop_from_empty(1-3) [OF assms(1)]
  have per: "let wi = world_before api tk rs p features w i;
                toss = (fst (random_call rs wi) > float_sub 1 p)
            in \<exists>caption w2.
                 resolve_caption rs (captions (features ! i)) (snd (random_call rs wi)) = (Inr caption, w2)
               \<and> (kinds b ! i = 0 \<or> kinds b ! i = 1)
               \<and> kinds b ! i = (if toss then 1 else 0)
               \<and> prompts acc ! i = make_prompt toss caption (palette_images (features ! i))
               \<and> (i < nrows (image_masks b) \<longrightarrow>
                    (\<forall>j<ncols (image_masks b).
                       entry (image_masks b) i j
                         = (image_start_positions acc ! i \<le> j
                            \<and> j < image_start_positions acc ! i + IMAGE_LEN)))"
    if i: "i < length features" for i
  proof -
    have len: "i < length (image_start_positions acc)" using lens(2) i by simp
    have mask: "i < nrows (image_masks b) \<longrightarrow>
                    (\<forall>j<ncols (image_masks b).
                       entry (image_masks b) i j
                         = (image_start_positions acc ! i \<le> j
                            \<and> j < image_start_positions acc ! i + IMAGE_LEN))"
      unfolding res(2) mask_dims using mask_row_entries [OF len] by blast
    from loop_example_facts [OF assms(1) i] mask show ?thesis
      unfolding Let_def res(3) by (auto split: if_splits)
  qed
  have c: "calls w' = calls w1 @ [EncodeBatch (prompts acc)]"
    unfolding res(4) by simp
  from per lens res(1) c show ?thesis
    unfolding res(3) by blast
qed

theorem collater_preserves_order_witness:
  "collate_loop (grid_tokenizer 40) [] cyclic_rng (1/2) sample_features empty_lists sample_world
     = (Inr sample_lists, sample_world_after_loop)
   \<and> get_custom_collater (grid_tokenizer 40) [] cyclic_rng (1/2) sample_features sample_world
     = (Inr (sample_batch 40), sample_world_after)
   \<and> length (kinds (sample_batch 40)) = length sample_features
   \<and> length (prompts sample_lists) = length sample_features
   \<and> encode_batch (grid_tokenizer 40) [] (prompts sample_lists)
           = Inr \<lparr>enc_input_ids = input_ids (sample_batch 40), enc_attention_mask = attention_mask (sample_batch 40)\<rparr>
   \<and> calls sample_world_after = calls sample_world_after_loop @ [EncodeBatch (prompts sample_lists)]
   \<and> (1::nat) < length sample_features
   \<and> (1::nat) < nrows (image_masks (sample_batch 40))
   \<and> (let wi = world_before (grid_tokenizer 40) [] cyclic_rng (1/2) sample_features sample_world 1;
           toss = (fst (random_call cyclic_rng wi) > float_sub 1 (1/2))
       in \<exists>caption w2.
                 resolve_caption cyclic_rng (captions (sample_features ! 1)) (snd (random_call cyclic_rng wi)) = (Inr caption, w2)
               \<and> (kinds (sample_batch 40) ! 1 = 0 \<or> kinds (sample_batch 40) ! 1 = 1)
               \<and> kinds (sample_batch 40) ! 1 = (if toss then 1 else 0)
               \<and> prompts sample_lists ! 1 = make_prompt toss caption (palette_images (sample_features ! 1))
               \<and> (1 < nrows (image_masks (sample_batch 40)) \<longrightarrow>
                    (\<forall>j<ncols (image_masks (sample_batch 40)).
                       entry (image_masks (sample_batch 40)) 1 j
                         = (image_start_positions sample_lists ! 1 \<le> j
                            \<and> j < image_start_positions sample_lists ! 1 + IMAGE_LEN))))"
proof -
  note l = sample_loop [of 40] and r = sample_run [of 40]
  have n: "(1::nat) < length sample_features" by (simp add: sample_features_length)
  have k: "(1::nat) < nrows (image_masks (sample_batch 40))"
    unfolding sample_batch_simps mask_dims by simp
  note t = collater_preserves_order [OF l r]
  from t n have per:
    "let wi = world_before (grid_tokenizer 40) [] cyclic_rng (1/2) sample_features sample_world 1;
           toss = (fst (random_call cyclic_rng wi) > float_sub 1 (1/2))
       in \<exists>caption w2.
                 resolve_caption cyclic_rng (captions (sample_features ! 1)) (snd (random_call cyclic_rng wi)) = (Inr caption, w2)
               \<and> (kinds (sample_batch 40) ! 1 = 0 \<or> kinds (sample_batch 40) ! 1 = 1)
               \<and> kinds (sample_batch 40) ! 1 = (if toss then 1 else 0)
               \<and> prompts sample_lists ! 1 = make_prompt toss caption (palette_images (sample_features ! 1))
               \<and> (1 < nrows (image_masks (sample_batch 40)) \<longrightarrow>
                    (\<forall>j<ncols (image_masks (sample_batch 40)).
                       entry (image_masks (sample_batch 40)) 1 j
                         = (image_start_positions sample_lists ! 1 \<le> j
                            \<and> j < image_start_positions sample_lists ! 1 + IMAGE_LEN)))"
    by blast
  from t l r n k per show ?thesis
    by (intro conjI) (elim conjE; assumption)+
qed

text \<open>
  C10: a successful call returns the record of the four fields \<open>input_ids\<close>,
  \<open>attention_mask\<close>, \<open>image_masks\<close> and \<open>kinds\<close>; it does so only for \<open>p\<close> between 0 and 1.
  \<open>image_masks\<close> has the shape of \<open>attention_mask\<close>, hence that of \<open>input_ids\<close> when the
  tokenizer returns the two with one shape, and \<open>kinds\<close> has one entry per example.
\<close>

theorem batch_shapes_agree:
  assumes "get_custom_collater api tk rs p features w = (Inr b, w')"
  shows "0 \<le> p \<and> p \<le> 1
       \<and> shape (image_masks b) = shape (attention_mask b)
       \<and> length (kinds b) = length features
       \<and> (\<exists>acc w1. collate_loop api tk rs p features empty_lists w = (Inr acc, w1)
             \<and> encode_batch api tk (prompts acc)
                 = Inr \<lparr>enc_input_ids = input_ids b, enc_attention_mask = attention_mask b\<rparr>)
       \<and> (shape (input_ids b) = shape (attention_mask b)
            \<longrightarrow> shape (image_masks b) = shape (input_ids b))"
proof -
  from collater_Inr [OF assms] obtain acc w1 where
    pv: "0 \<le> p \<and> p \<le> 1"
    and l: "collate_loop api tk rs p features empty_lists w = (Inr acc, w1)"
    by blast
  note res = collater_result [OF l assms]
  have sh: "shape (image_masks b) = shape (attention_mask b)"
    unfolding res(2) by (simp add: shape_def mask_dims)
  have k: "length (kinds b) = length features"
    unfolding res(3) by (rule loop_from_empty(1) [OF l])
  from pv sh k l res(1) show ?thesis by auto
qed

theorem batch_shapes_agree_witness:
  "get_custom_collater (grid_tokenizer 40) [] cyclic_rng (1/2) sample_features sample_world
     = (Inr (sample_batch 40), sample_world_after)
   \<and> shape (input_ids (sample_batch 40)) = shape (attention_mask (sample_batch 40))
   \<and> shape (image_masks (sample_batch 40)) = shape (input_ids (sample_batch 40))
   \<and> shape (image_masks (sample_batch 40)) = (2, 40)
   \<and> length (kinds (sample_batch 40)) = length sample_features"
proof -
  note r = sample_run [of 40]
  note t = batch_shapes_agree [OF r]
  have i: "shape (input_ids (sample_batch 40)) = shape (attention_mask (sample_batch 40))"
    by (simp add: sample_batch_simps shape_def)
  from t have "shape (input_ids (sample_batch 40)) = shape (attention_mask (sample_batch 40))
            \<longrightarrow> shape (image_masks (sample_batch 40)) = shape (input_ids (sample_batch 40))"
    by (elim conjE)
  with i have m: "shape (image_masks (sample_batch 40)) = shape (input_ids (sample_batch 40))"
    by (rule rev_mp)
  have v: "shape (image_masks (sample_batch 40)) = (2, 40)"
    unfolding m by (simp add: sample_batch_simps shape_def)
  from t have k: "length (kinds (sample_batch 40)) = length sample_features"
    by (elim conjE)
  show ?thesis
    by (intro conjI) (rule r, rule i, rule m, rule v, rule k)
qed

text \<open>
  C6: for a tokenizer whose \<^verbatim>\<open>add_tokens\<close> registers the tokens it is given, keeps the tokens
  it has, and does nothing when every token it is given is already in the vocabulary,
  preparing a prepared tokenizer changes nothing: the tokenizer, and with it the content
  and the size of its vocabulary, stay as the first preparation left them. The
  tokenizer that \<^verbatim>\<open>prepare_tokenizer\<close> returns is the one that holds the 512 pixel tokens
  and the four markers.
\<close>

theorem prepare_tokenizer_idempotent:
  assumes "\<forall>t xs. set xs \<subseteq> dom (get_vocab api t) \<longrightarrow> add_tokens api t xs = t"
      and "\<forall>t xs. dom (get_vocab api t) \<union> set xs \<subseteq> dom (get_vocab api (add_tokens api t xs))"
  shows "prepare_tokenizer api (prepare_tokenizer api t) = prepare_tokenizer api t
       \<and> get_vocab api (prepare_tokenizer api (prepare_tokenizer api t))
           = get_vocab api (prepare_tokenizer api t)
       \<and> card (dom (get_vocab api (prepare_tokenizer api (prepare_tokenizer api t))))
           = card (dom (get_vocab api (prepare_tokenizer api t)))
       \<and> set PIXEL_TOKENS \<union> {IMAGE_FIRST_TOKEN, TEXT_FIRST_TOKEN, IMAGE_TOKEN, TEXT_TOKEN}
           \<subseteq> dom (get_vocab api (prepare_tokenizer api t))"
proof -
  let ?markers = "[IMAGE_FIRST_TOKEN, TEXT_FIRST_TOKEN, IMAGE_TOKEN, TEXT_TOKEN]"
  let ?t1 = "add_tokens api t PIXEL_TOKENS"
  let ?t2 = "add_tokens api ?t1 ?markers"
  have prep: "prepare_tokenizer api t = ?t2"
    by (simp add: prepare_tokenizer_def)
  have p1: "set PIXEL_TOKENS \<subseteq> dom (get_vocab api ?t1)"
    using assms(2) by blast
  have "dom (get_vocab api ?t1) \<union> set ?markers \<subseteq> dom (get_vocab api ?t2)"
    using assms(2) by blast
  with p1 have pix: "set PIXEL_TOKENS \<subseteq> dom (get_vocab api ?t2)"
    and mark: "set ?markers \<subseteq> dom (get_vocab api ?t2)"
    by blast+
  from pix assms(1) have a: "add_tokens api ?t2 PIXEL_TOKENS = ?t2" by blast
  from mark assms(1) have b: "add_tokens api ?t2 ?markers = ?t2" by blast
  have idem: "prepare_tokenizer api (prepare_tokenizer api t) = prepare_tokenizer api t"
    unfolding prep by (simp add: prepare_tokenizer_def a b)
  from pix mark have "set PIXEL_TOKENS \<union> {IMAGE_FIRST_TOKEN, TEXT_FIRST_TOKEN, IMAGE_TOKEN, TEXT_TOKEN}
           \<subseteq> dom (get_vocab api (prepare_tokenizer api t))"
    unfolding prep by simp
  with idem show ?thesis by simp
qed

theorem prepare_tokenizer_idempotent_witness:
  "add_tokens (grid_tokenizer 40) [''cat'', ''[Image]''] [''[Image]''] = [''cat'', ''[Image]'']
   \<and> prepare_tokenizer (grid_tokenizer 40) (prepare_tokenizer (grid_tokenizer 40) [''cat'', ''[Image]''])
       = prepare_tokenizer (grid_tokenizer 40) [''cat'', ''[Image]'']
   \<and> get_vocab (grid_tokenizer 40)
         (prepare_tokenizer (grid_tokenizer 40) (prepare_tokenizer (grid_tokenizer 40) [''cat'', ''[Image]'']))
       = get_vocab (grid_tokenizer 40) (prepare_tokenizer (grid_tokenizer 40) [''cat'', ''[Image]''])
   \<and> set PIXEL_TOKENS \<union> {IMAGE_FIRST_TOKEN, TEXT_FIRST_TOKEN, IMAGE_TOKEN, TEXT_TOKEN}
       \<subseteq> dom (get_vocab (grid_tokenizer 40) (prepare_tokenizer (grid_tokenizer 40) [''cat'', ''[Image]'']))"
proof -
  note n = grid_tokenizer_noop [of 40] and g = grid_tokenizer_registers [of 40]
  have a: "add_tokens (grid_tokenizer 40) [''cat'', ''[Image]''] [''[Image]''] = [''cat'', ''[Image]'']"
    by (simp add: grid_tokenizer_def vocab_add_tokens_def)
  from prepare_tokenizer_idempotent [OF n g, of "[''cat'', ''[Image]'']"] a show ?thesis
    by (intro conjI) (elim conjE; assumption)+
qed

end
